theory Spec2Isabelle
  imports Complex_Main
begin

section \<open>Text primitives of the Python sources\<close>

text \<open>
  A Python \<open>str\<close> is modelled as a \<open>string\<close> whose characters are the code points
  below 256 (Latin-1). Over that range \<open>str.isspace\<close>, and with it \<open>str.split()\<close>,
  \<open>str.strip()\<close> and the regular expression class \<open>\s\<close>, recognise exactly the twelve
  characters of \<open>whitespace_chars\<close>.
\<close>

definition whitespace_chars :: "char list" where
  "whitespace_chars =
     [CHR 0x09, CHR 0x0A, CHR 0x0B, CHR 0x0C, CHR 0x0D, CHR 0x1C, CHR 0x1D, CHR 0x1E,
      CHR 0x1F, CHR 0x20, CHR 0x85, CHR 0xA0]"

definition is_space :: "char \<Rightarrow> bool" where
  "is_space c = (c \<in> set whitespace_chars)"

text \<open>\<open>text.split()\<close>: the maximal runs of non-whitespace characters, in order.
  The first argument is the word being read.\<close>

fun split_from :: "string \<Rightarrow> string \<Rightarrow> string list" where
  "split_from cur [] = (if cur = [] then [] else [cur])"
| "split_from cur (c # cs) =
     (if is_space c then (if cur = [] then split_from [] cs else cur # split_from [] cs)
      else split_from (cur @ [c]) cs)"

definition split_ws :: "string \<Rightarrow> string list" where
  "split_ws text = split_from [] text"

text \<open>\<open>" ".join(ws)\<close>\<close>

fun join_space :: "string list \<Rightarrow> string" where
  "join_space [] = []"
| "join_space [w] = w"
| "join_space (w # v # ws) = w @ CHR 0x20 # join_space (v # ws)"

text \<open>\<open>xs[start:end]\<close> with Python's treatment of negative and out-of-range bounds.\<close>

definition slice_bound :: "nat \<Rightarrow> int \<Rightarrow> nat" where
  "slice_bound n i = (if i < 0 then nat (max (i + int n) 0) else min (nat i) n)"

definition py_slice :: "'a list \<Rightarrow> int \<Rightarrow> int \<Rightarrow> 'a list" where
  "py_slice xs start end =
     take (slice_bound (length xs) end - slice_bound (length xs) start)
          (drop (slice_bound (length xs) start) xs)"

section \<open>The chunker: \<open>VectorStore._split_text_into_chunks\<close>\<close>

text \<open>
  The \<open>while\<close> loop of \<open>_split_text_into_chunks\<close>, one iteration per unit of fuel.
  \<open>None\<close> means the loop has not returned within the fuel given; \<open>chunks\<close> is the list
  built so far.
\<close>

fun split_loop ::
  "nat \<Rightarrow> string list \<Rightarrow> int \<Rightarrow> int \<Rightarrow> int \<Rightarrow> string list \<Rightarrow> string list option" where
  "split_loop 0 words chunk_size chunk_overlap start chunks = None"
| "split_loop (Suc fuel) words chunk_size chunk_overlap start chunks =
     (if start < int (length words) then
        (let end = min (start + chunk_size) (int (length words));
             chunk = join_space (py_slice words start end);
             chunks' = chunks @ [chunk];
             start' = end - chunk_overlap
         in if start' \<ge> int (length words) then Some chunks'
            else split_loop fuel words chunk_size chunk_overlap start' chunks')
      else Some chunks)"

definition split_text_into_chunks :: "nat \<Rightarrow> int \<Rightarrow> int \<Rightarrow> string \<Rightarrow> string list option" where
  "split_text_into_chunks fuel chunk_size chunk_overlap text =
     (let words = split_ws text in
      if int (length words) \<le> chunk_size then Some [text]
      else split_loop fuel words chunk_size chunk_overlap 0 [])"


text \<open>A word as \<open>split()\<close> produces it: non-empty and free of whitespace.\<close>

definition word_ok :: "string \<Rightarrow> bool" where
  "word_ok w = (w \<noteq> [] \<and> list_all (\<lambda>c. \<not> is_space c) w)"

section \<open>The index: \<open>VectorStore\<close>\<close>

subsection \<open>Quality gate, content hash and chunk id\<close>

text \<open>\<open>chunk.strip()\<close>\<close>

definition strip :: "string \<Rightarrow> string" where
  "strip s = rev (dropWhile is_space (rev (dropWhile is_space s)))"

text \<open>\<open>c.isalpha()\<close> on the code points below 256.\<close>

definition is_alpha :: "char \<Rightarrow> bool" where
  "is_alpha c =
     (let n = (of_char c :: nat) in
      (65 \<le> n \<and> n \<le> 90) \<or> (97 \<le> n \<and> n \<le> 122) \<or> n = 170 \<or> n = 181 \<or> n = 186 \<or>
      (192 \<le> n \<and> n \<le> 214) \<or> (216 \<le> n \<and> n \<le> 246) \<or> (248 \<le> n \<and> n \<le> 255))"

text \<open>
  \<open>_passes_quality_check\<close>. The two float quotients are taken in the reals, where
  \<open>0.3\<close> is \<open>3/10\<close>.
\<close>

definition passes_quality_check :: "string \<Rightarrow> bool" where
  "passes_quality_check chunk =
     (if chunk = [] \<or> length (strip chunk) = 0 then False
      else if length (strip chunk) < 100 then False
      else let words = split_ws chunk in
        if length words < 10 then False
        else let alpha_chars = length (filter is_alpha chunk);
                 total_chars = length chunk in
          if total_chars > 0 \<and> real alpha_chars / real total_chars < 3 / 10 then False
          else if words \<noteq> [] \<and> real (sum_list (map length words)) / real (length words) < 2
               then False
          else True)"

text \<open>
  \<open>_calculate_chunk_hash\<close>: the SHA-1 hex digest of the chunk. The digest function
  belongs to \<open>hashlib\<close> and is a parameter of the model.
\<close>

definition calculate_chunk_hash :: "(string \<Rightarrow> string) \<Rightarrow> string \<Rightarrow> string" where
  "calculate_chunk_hash sha1_hex chunk = sha1_hex chunk"

text \<open>Decimal rendering of a chunk index inside an f-string.\<close>

fun show_nat :: "nat \<Rightarrow> string" where
  "show_nat n =
     (if n < 10 then [char_of (48 + n)] else show_nat (n div 10) @ [char_of (48 + n mod 10)])"

declare show_nat.simps [simp del]

text \<open>
  \<open>_generate_unique_id\<close>: the first eight hex digits of the digest of the absolute
  path, then \<open>_chunk_\<close> and the index. \<open>os.path.abspath\<close> is a parameter too.
\<close>

definition generate_unique_id ::
  "(string \<Rightarrow> string) \<Rightarrow> (string \<Rightarrow> string) \<Rightarrow> string \<Rightarrow> nat \<Rightarrow> string" where
  "generate_unique_id sha1_hex abspath doc chunk_index =
     take 8 (sha1_hex (abspath doc)) @ ''_chunk_'' @ show_nat chunk_index"

subsection \<open>The store and its backend\<close>

text \<open>
  The exceptions the sources meet. All derive from \<open>Exception\<close> but \<open>CancelledError\<close>,
  the cancellation of an asyncio task, which derives from \<open>BaseException\<close> only: a
  handler \<open>except Exception\<close> catches \<open>e\<close> exactly when \<open>is_Exception e\<close>.
\<close>

datatype error = BackendError | ZeroDivisionError | AttributeError | PageError | CancelledError

fun is_Exception :: "error \<Rightarrow> bool" where
  "is_Exception CancelledError = False"
| "is_Exception BackendError = True"
| "is_Exception ZeroDivisionError = True"
| "is_Exception AttributeError = True"
| "is_Exception PageError = True"

datatype meta_value = MStr string | MInt int

type_synonym meta = "string \<rightharpoonup> meta_value"

record row =
  row_id :: string
  row_document :: string
  row_metadata :: meta

text \<open>What the store does to the outside world, in the order it happens.\<close>

datatype event = Add_call | Sleep_call nat | Reconnect_call | Reset_call | Get_call

text \<open>
  The state of a \<open>VectorStore\<close> together with the backend behind it. \<open>collection\<close>
  holds the rows the backend has persisted. The scripts fix how the backend will answer
  the coming calls of \<open>collection.add\<close>, of the reconnect, of \<open>client.reset\<close> and of
  \<open>collection.get\<close>: \<open>True\<close> for a call that returns, \<open>False\<close> for one that raises; a
  call beyond the end of its script returns.
\<close>

record vector_store =
  chunk_size :: int
  chunk_overlap :: int
  batch_size :: int
  seen_hashes :: "string set"
  collection :: "row list"
  add_script :: "bool list"
  reconnect_script :: "bool list"
  reset_script :: "bool list"
  get_script :: "bool list"
  events :: "event list"

definition next_outcome :: "bool list \<Rightarrow> bool" where
  "next_outcome script = (case script of [] \<Rightarrow> True | ok # _ \<Rightarrow> ok)"

text \<open>The rows a batch stands for.\<close>

definition batch_rows :: "string list \<Rightarrow> meta list \<Rightarrow> string list \<Rightarrow> row list" where
  "batch_rows documents metadatas ids =
     map (\<lambda>(i, d, m). \<lparr>row_id = i, row_document = d, row_metadata = m\<rparr>)
       (zip ids (zip documents metadatas))"

text \<open>
  Modelled from the spec: the backend collection, which belongs to the ChromaDB
  library, is "keyed by chunk id" and has "overwrite semantics on identical ids". A
  row written under an id replaces the row the collection holds under that id.
\<close>

definition put_row :: "row list \<Rightarrow> row \<Rightarrow> row list" where
  "put_row rows r = filter (\<lambda>x. row_id x \<noteq> row_id r) rows @ [r]"

definition upsert_rows :: "row list \<Rightarrow> row list \<Rightarrow> row list" where
  "upsert_rows rows new = foldl put_row rows new"

text \<open>
  \<open>self.collection.add(documents=..., metadatas=..., ids=...)\<close>: a call that returns
  has written the rows of the batch, a call that raises has written nothing.
\<close>

definition collection_add ::
  "vector_store \<Rightarrow> string list \<Rightarrow> meta list \<Rightarrow> string list \<Rightarrow> (error + unit) \<times> vector_store" where
  "collection_add s documents metadatas ids =
     (let s1 = s\<lparr>events := events s @ [Add_call], add_script := tl (add_script s)\<rparr> in
      if next_outcome (add_script s)
      then (Inr (), s1\<lparr>collection :=
              upsert_rows (collection s1) (batch_rows documents metadatas ids)\<rparr>)
      else (Inl BackendError, s1))"

text \<open>\<open>time.sleep(backoff_time)\<close>\<close>

definition sleep :: "nat \<Rightarrow> vector_store \<Rightarrow> vector_store" where
  "sleep seconds s = s\<lparr>events := events s @ [Sleep_call seconds]\<rparr>"

text \<open>\<open>_reconnect_client\<close>: it re-raises what the new connection raises.\<close>

definition reconnect_client :: "vector_store \<Rightarrow> (error + unit) \<times> vector_store" where
  "reconnect_client s =
     (let s1 = s\<lparr>events := events s @ [Reconnect_call],
                 reconnect_script := tl (reconnect_script s)\<rparr> in
      if next_outcome (reconnect_script s) then (Inr (), s1) else (Inl BackendError, s1))"

text \<open>\<open>self.client.reset()\<close>\<close>

definition client_reset :: "vector_store \<Rightarrow> (error + unit) \<times> vector_store" where
  "client_reset s =
     (let s1 = s\<lparr>events := events s @ [Reset_call], reset_script := tl (reset_script s)\<rparr> in
      if next_outcome (reset_script s) then (Inr (), s1\<lparr>collection := []\<rparr>)
      else (Inl BackendError, s1))"

text \<open>
  \<open>has_document\<close>: whether \<open>collection.get(where={"doc_id": doc_id}, limit=1)\<close> finds
  a row; \<open>False\<close> when the call raises.
\<close>

definition has_document :: "vector_store \<Rightarrow> string \<Rightarrow> bool \<times> vector_store" where
  "has_document s doc =
     (let s1 = s\<lparr>events := events s @ [Get_call], get_script := tl (get_script s)\<rparr> in
      if next_outcome (get_script s)
      then (list_ex (\<lambda>r. row_metadata r ''doc_id'' = Some (MStr doc)) (collection s), s1)
      else (False, s1))"

subsection \<open>\<open>_add_batch\<close>\<close>

text \<open>
  The body of \<open>for attempt in range(max_retries)\<close>, over the attempts still to run;
  running out of attempts is the \<open>return False\<close> after the loop.
\<close>

fun add_batch_attempts ::
  "nat list \<Rightarrow> nat \<Rightarrow> nat \<Rightarrow> vector_store \<Rightarrow> string list \<Rightarrow> meta list \<Rightarrow> string list \<Rightarrow>
   bool \<times> vector_store" where
  "add_batch_attempts [] max_retries backoff_time s documents metadatas ids = (False, s)"
| "add_batch_attempts (attempt # rest) max_retries backoff_time s documents metadatas ids =
     (case collection_add s documents metadatas ids of
        (Inr _, s1) \<Rightarrow> (True, s1)
      | (Inl e, s1) \<Rightarrow>
          if attempt < max_retries - 1 then
            (let s2 = sleep backoff_time s1;
                 backoff_time' = backoff_time * 2;
                 s3 = snd (reconnect_client s2)
             in add_batch_attempts rest max_retries backoff_time' s3 documents metadatas ids)
          else (False, s1))"

definition add_batch ::
  "vector_store \<Rightarrow> string list \<Rightarrow> meta list \<Rightarrow> string list \<Rightarrow> bool \<times> vector_store" where
  "add_batch s documents metadatas ids =
     (let max_retries = 3; backoff_time = 1 in
      add_batch_attempts [0..<max_retries] max_retries backoff_time s documents metadatas ids)"

text \<open>What happened after the last call of \<open>collection.add\<close>.\<close>

definition events_after_last_add :: "event list \<Rightarrow> event list" where
  "events_after_last_add evs = rev (takeWhile (\<lambda>e. e \<noteq> Add_call) (rev evs))"

subsection \<open>\<open>add_document\<close>\<close>

text \<open>
  The \<open>for i, chunk in enumerate(chunks)\<close> loop and the flush of the remainder after
  it. \<open>total_added\<close> only feeds log lines and is left out.
\<close>

fun add_chunks ::
  "(string \<Rightarrow> string) \<Rightarrow> (string \<Rightarrow> string) \<Rightarrow> string \<Rightarrow> meta option \<Rightarrow> nat \<Rightarrow>
   (nat \<times> string) list \<Rightarrow> string list \<Rightarrow> meta list \<Rightarrow> string list \<Rightarrow> vector_store \<Rightarrow>
   bool \<times> vector_store" where
  "add_chunks sha1_hex abspath doc metadata total_chunks [] doc_batch meta_batch id_batch s =
     (if doc_batch \<noteq> [] then
        (case add_batch s doc_batch meta_batch id_batch of
           (True, s1) \<Rightarrow> (True, s1)
         | (False, s1) \<Rightarrow> (False, s1))
      else (True, s))"
| "add_chunks sha1_hex abspath doc metadata total_chunks ((i, chunk) # rest) doc_batch meta_batch id_batch s =
     (if \<not> passes_quality_check chunk
      then add_chunks sha1_hex abspath doc metadata total_chunks rest doc_batch meta_batch id_batch s
      else let chunk_hash = calculate_chunk_hash sha1_hex chunk in
        if chunk_hash \<in> seen_hashes s
        then add_chunks sha1_hex abspath doc metadata total_chunks rest doc_batch meta_batch id_batch s
        else let unique_id = generate_unique_id sha1_hex abspath doc i;
                 doc_batch' = doc_batch @ [chunk];
                 meta_batch' = meta_batch @
                   [[''doc_id'' \<mapsto> MStr doc, ''chunk_id'' \<mapsto> MStr unique_id,
                     ''chunk_index'' \<mapsto> MInt (int i), ''total_chunks'' \<mapsto> MInt (int total_chunks),
                     ''chunk_hash'' \<mapsto> MStr chunk_hash]
                    ++ (case metadata of None \<Rightarrow> Map.empty | Some m \<Rightarrow> m)];
                 id_batch' = id_batch @ [unique_id];
                 s1 = s\<lparr>seen_hashes := insert chunk_hash (seen_hashes s)\<rparr>
             in if int (length doc_batch') \<ge> batch_size s1 then
                  (case add_batch s1 doc_batch' meta_batch' id_batch' of
                     (True, s2) \<Rightarrow>
                       add_chunks sha1_hex abspath doc metadata total_chunks rest [] [] [] s2
                   | (False, s2) \<Rightarrow> (False, s2))
                else add_chunks sha1_hex abspath doc metadata total_chunks rest
                       doc_batch' meta_batch' id_batch' s1)"

text \<open>\<open>add_document\<close>; \<open>None\<close> when the chunker has not returned within the fuel.\<close>

definition add_document ::
  "(string \<Rightarrow> string) \<Rightarrow> (string \<Rightarrow> string) \<Rightarrow> nat \<Rightarrow> vector_store \<Rightarrow> string \<Rightarrow> string \<Rightarrow>
   meta option \<Rightarrow> (bool \<times> vector_store) option" where
  "add_document sha1_hex abspath fuel s doc text metadata =
     (case split_text_into_chunks fuel (chunk_size s) (chunk_overlap s) text of
        None \<Rightarrow> None
      | Some chunks \<Rightarrow>
          Some (add_chunks sha1_hex abspath doc metadata (length chunks)
                  (zip [0..<length chunks] chunks) [] [] [] s))"


subsection \<open>\<open>clear_all\<close>\<close>

definition clear_all :: "vector_store \<Rightarrow> bool \<times> vector_store" where
  "clear_all s =
     (case client_reset s of
        (Inr _, s1) \<Rightarrow> (True, s1\<lparr>seen_hashes := {}\<rparr>)
      | (Inl e, s1) \<Rightarrow> (False, s1))"

section \<open>The extractor: \<open>OptimizedPDFParser\<close>\<close>

definition min_text_length :: nat where
  "min_text_length = 120"

text \<open>The characters of the class \<open>[A-Za-z0-9...]\<close>, which adds the German umlauts and the sharp s,
  by code point.\<close>

definition is_alnum_de :: "char \<Rightarrow> bool" where
  "is_alnum_de c =
     (let n = (of_char c :: nat) in
      (65 \<le> n \<and> n \<le> 90) \<or> (97 \<le> n \<and> n \<le> 122) \<or> (48 \<le> n \<and> n \<le> 57) \<or>
      n = 196 \<or> n = 214 \<or> n = 220 \<or> n = 228 \<or> n = 246 \<or> n = 252 \<or> n = 223)"

definition is_text_sufficient :: "string \<Rightarrow> bool" where
  "is_text_sufficient txt =
     (if txt = [] then False
      else let cleaned = filter (\<lambda>c. \<not> is_space c) txt in
        if length cleaned < min_text_length then False
        else let alphanumeric = filter is_alnum_de cleaned in
          if real (length alphanumeric) < real min_text_length * (1 / 2) then False
          else let words = split_ws txt in
            if length words < 20 then False else True)"

text \<open>
  What one page gives: the outcome of awaiting \<open>_extract_text_normal\<close> and the outcome
  of awaiting \<open>_extract_text_ocr\<close> (which runs only when it is asked for), each the
  text returned or the exception raised into \<open>_process_page_async\<close>.
\<close>

record page =
  normal_text :: "error + string"
  ocr_text :: "error + string"

text \<open>
  \<open>_process_page_async\<close>. Its \<open>except Exception\<close> turns an exception into the
  result \<open>None\<close>; what does not derive from \<open>Exception\<close> leaves the coroutine (\<open>Inl\<close>).
\<close>

definition process_page_async :: "page \<Rightarrow> error + string option" where
  "process_page_async p =
     (case normal_text p of
        Inl e \<Rightarrow> if is_Exception e then Inr None else Inl e
      | Inr page_text \<Rightarrow>
          if is_text_sufficient page_text then Inr (Some page_text)
          else (case ocr_text p of
                  Inl e \<Rightarrow> if is_Exception e then Inr None else Inl e
                | Inr ocr \<Rightarrow>
                    if is_text_sufficient ocr then Inr (Some ocr)
                    else Inr (Some (if page_text \<noteq> [] then page_text else ocr))))"

text \<open>
  The loop over the results of \<open>asyncio.gather(..., return_exceptions=True)\<close>, each
  the exception a page task ended with or the value it returned. An exception object
  that is an instance of \<open>Exception\<close> is skipped; any other exception object is truthy
  and has no \<open>strip\<close>, so the test \<open>result and len(result.strip()) > 0\<close> raises
  \<open>AttributeError\<close>.
\<close>

fun collect_paragraphs :: "(error + string option) list \<Rightarrow> error + string list" where
  "collect_paragraphs [] = Inr []"
| "collect_paragraphs (Inl e # rest) =
     (if is_Exception e then collect_paragraphs rest else Inl AttributeError)"
| "collect_paragraphs (Inr None # rest) = collect_paragraphs rest"
| "collect_paragraphs (Inr (Some result) # rest) =
     (if result \<noteq> [] \<and> length (strip result) > 0
      then (case collect_paragraphs rest of
              Inl e \<Rightarrow> Inl e
            | Inr paragraphs \<Rightarrow> Inr (strip result # paragraphs))
      else collect_paragraphs rest)"

text \<open>
  What a call of \<open>extract_paragraphs_from_pdf\<close> meets: \<open>opened\<close> is what opening the
  file and reading its page count gives, an exception or the pages; \<open>gather_cancelled\<close>
  tells whether the calling task is cancelled while it awaits \<open>asyncio.gather\<close>.
\<close>

record pdf_run =
  opened :: "error + page list"
  gather_cancelled :: bool

text \<open>The body of the \<open>try\<close> in \<open>extract_paragraphs_from_pdf\<close>.\<close>

definition extract_body :: "pdf_run \<Rightarrow> error + string list" where
  "extract_body run =
     (case opened run of
        Inl e \<Rightarrow> Inl e
      | Inr pages \<Rightarrow>
          if gather_cancelled run then Inl CancelledError
          else collect_paragraphs (map process_page_async pages))"

text \<open>
  \<open>extract_paragraphs_from_pdf\<close>: its \<open>except Exception\<close> returns the empty list; \<open>Inl\<close>
  is an exception that leaves the function.
\<close>

definition extract_paragraphs_from_pdf :: "pdf_run \<Rightarrow> error + string list" where
  "extract_paragraphs_from_pdf run =
     (case extract_body run of
        Inl e \<Rightarrow> if is_Exception e then Inr [] else Inl e
      | Inr paragraphs \<Rightarrow> Inr paragraphs)"




section \<open>Retrieval\<close>

subsection \<open>\<open>search\<close> and \<open>search_in_document\<close>\<close>

text \<open>
  A Python float is read as the real number it stands for (infinities and NaN are left
  out). An arithmetic operation on floats gives the exact result rounded to a float;
  the rounding function \<open>fl\<close> is a parameter of the model. The score of a distance is
  \<open>1.0 / (1.0 + distance)\<close>, one rounded sum and one rounded quotient.
\<close>

definition score :: "(real \<Rightarrow> real) \<Rightarrow> real \<Rightarrow> real" where
  "score fl distance = fl (1 / fl (1 + distance))"

text \<open>
  Rounding to the nearest multiple of \<open>1 / 2 ^ 52\<close> (a half goes up), which is what
  double precision does to a number between 1 and 2, ties aside. It serves as an
  instance of a rounding in the statements about the score.
\<close>

definition round52 :: "real \<Rightarrow> real" where
  "round52 x = of_int (round (x * 2 ^ 52)) / 2 ^ 52"

text \<open>A result dictionary; \<open>result_text\<close> is its key \<open>text\<close>, and \<open>source_pdf\<close> is the key the
  global search adds.\<close>

record search_result =
  doc_id :: meta_value
  chunk_id :: meta_value
  chunk_index :: meta_value
  result_text :: string
  similarity_score :: real
  metadata :: meta
  source_pdf :: "string option"

text \<open>
  The first entries of \<open>results['metadatas']\<close>, \<open>results['distances']\<close> and
  \<open>results['documents']\<close>. A metadata entry may be \<open>None\<close>.
\<close>

type_synonym query_response = "meta option list \<times> real list \<times> string list"

text \<open>
  The backend's \<open>collection.query\<close>: from the query text, the number of results asked
  for and the \<open>where\<close> filter on \<open>doc_id\<close> (if any) to a response or an exception.
\<close>

type_synonym backend_query = "string \<Rightarrow> int \<Rightarrow> string option \<Rightarrow> error + query_response"

text \<open>\<open>d.get(key, default)\<close>\<close>

definition get_default :: "meta \<Rightarrow> string \<Rightarrow> meta_value \<Rightarrow> meta_value" where
  "get_default m key dflt = (case m key of None \<Rightarrow> dflt | Some v \<Rightarrow> v)"

text \<open>
  The filtering loop over the zipped response. Dividing by a sum that is zero raises,
  and so does \<open>.get\<close> on a metadata entry that is \<open>None\<close>; either ends the loop.
\<close>

fun filter_results ::
  "(real \<Rightarrow> real) \<Rightarrow> real \<Rightarrow> (meta option \<times> real \<times> string) list \<Rightarrow>
   error + search_result list" where
  "filter_results fl similarity_threshold [] = Inr []"
| "filter_results fl similarity_threshold ((md, distance, document) # rest) =
     (if fl (1 + distance) = 0 then Inl ZeroDivisionError
      else if score fl distance \<ge> similarity_threshold then
        (case md of
           None \<Rightarrow> Inl AttributeError
         | Some m \<Rightarrow>
            (case filter_results fl similarity_threshold rest of
               Inl e \<Rightarrow> Inl e
             | Inr results \<Rightarrow>
                 Inr (\<lparr>doc_id = get_default m ''doc_id'' (MStr []),
                       chunk_id = get_default m ''chunk_id'' (MStr []),
                       chunk_index = get_default m ''chunk_index'' (MInt 0),
                       result_text = document,
                       similarity_score = score fl distance,
                       metadata = m,
                       source_pdf = None\<rparr> # results)))
      else filter_results fl similarity_threshold rest)"

text \<open>
  \<open>results.sort(key=lambda x: x["similarity_score"], reverse=True)\<close>: descending, and
  stable (results with equal scores keep their order).
\<close>

definition sort_by_score_desc :: "search_result list \<Rightarrow> search_result list" where
  "sort_by_score_desc results = sort_key (\<lambda>r. - similarity_score r) results"

text \<open>Both searches share everything after the backend call; an exception anywhere
  gives the empty list.\<close>

definition rank_response ::
  "(real \<Rightarrow> real) \<Rightarrow> int \<Rightarrow> real \<Rightarrow> error + query_response \<Rightarrow> search_result list" where
  "rank_response fl n_results similarity_threshold response =
     (case response of
        Inl e \<Rightarrow> []
      | Inr (metadatas, distances, documents) \<Rightarrow>
          (case filter_results fl similarity_threshold
                  (zip metadatas (zip distances documents)) of
             Inl e \<Rightarrow> []
           | Inr filtered_results \<Rightarrow> py_slice (sort_by_score_desc filtered_results) 0 n_results))"

definition search ::
  "(real \<Rightarrow> real) \<Rightarrow> backend_query \<Rightarrow> string \<Rightarrow> int \<Rightarrow> real \<Rightarrow> search_result list" where
  "search fl backend query n_results similarity_threshold =
     rank_response fl n_results similarity_threshold (backend query (n_results * 2) None)"

definition search_in_document ::
  "(real \<Rightarrow> real) \<Rightarrow> backend_query \<Rightarrow> string \<Rightarrow> string \<Rightarrow> int \<Rightarrow> real \<Rightarrow>
   search_result list" where
  "search_in_document fl backend query doc n_results similarity_threshold =
     rank_response fl n_results similarity_threshold (backend query (n_results * 2) (Some doc))"

text \<open>
  \<open>get_combined_context_for_document\<close>, its list of chunks. (The context string it
  also builds prints each score with three decimals and is not modelled.) The search
  runs with the default threshold \<open>0.15\<close>.
\<close>

definition get_combined_context_for_document ::
  "(real \<Rightarrow> real) \<Rightarrow> backend_query \<Rightarrow> string \<Rightarrow> string \<Rightarrow> int \<Rightarrow> search_result list" where
  "get_combined_context_for_document fl backend query doc max_chunks =
     (let chunks = search_in_document fl backend query doc max_chunks (15 / 100) in
      if chunks = [] then [] else chunks)"

subsection \<open>\<open>_ensure_document_indexed\<close>\<close>

text \<open>
  What surrounds the handlers: the digest and the path functions, the float rounding,
  what reading each PDF file gives, and how the backend answers a query when its
  collection holds given rows.
\<close>

record host =
  digest :: "string \<Rightarrow> string"
  absolute :: "string \<Rightarrow> string"
  rounding :: "real \<Rightarrow> real"
  files :: "string \<Rightarrow> pdf_run"
  database :: "row list \<Rightarrow> backend_query"

text \<open>\<open>sep.join(parts)\<close>\<close>

fun join_with :: "string \<Rightarrow> string list \<Rightarrow> string" where
  "join_with sep [] = []"
| "join_with sep [p] = p"
| "join_with sep (p # q # ps) = p @ sep @ join_with sep (q # ps)"

text \<open>
  \<open>_ensure_document_indexed\<close>. \<open>None\<close>: the call does not return (within the fuel the
  chunker is given); \<open>Some (Inl e)\<close>: the exception \<open>e\<close> leaves it, which its
  \<open>except Exception\<close> allows only for what does not derive from \<open>Exception\<close>;
  \<open>Some (Inr s')\<close>: it returns and leaves the store as \<open>s'\<close>.
\<close>

definition ensure_document_indexed ::
  "host \<Rightarrow> nat \<Rightarrow> vector_store \<Rightarrow> string \<Rightarrow> (error + vector_store) option" where
  "ensure_document_indexed h fuel s document_name =
     (case has_document s document_name of
        (True, s1) \<Rightarrow> Some (Inr s1)
      | (False, s1) \<Rightarrow>
          (case extract_paragraphs_from_pdf (files h document_name) of
             Inl e \<Rightarrow> if is_Exception e then Some (Inr s1) else Some (Inl e)
           | Inr paragraphs \<Rightarrow>
               if paragraphs = [] then Some (Inr s1)
               else
                 (let full_text = join_with [CHR 0x0A, CHR 0x0A] paragraphs in
                  case add_document (digest h) (absolute h) fuel s1 document_name full_text
                         (Some [''source'' \<mapsto> MStr document_name, ''type'' \<mapsto> MStr ''pdf'']) of
                    None \<Rightarrow> None
                  | Some (success, s2) \<Rightarrow> Some (Inr s2))))"

subsection \<open>\<open>_handle_global_search\<close>\<close>

text \<open>
  The loop over \<open>pdf_files\<close> (the list as it stands once an empty one has been filled
  from the directory). Each pass awaits \<open>_ensure_document_indexed\<close> and then searches
  the document in the collection as the indexing has left it. The pass does not return
  when the indexing does not, and an exception that leaves the indexing is none that the
  \<open>except Exception\<close> of the pass or of the handler catches, so it leaves the handler.
\<close>

fun collect_results ::
  "host \<Rightarrow> nat \<Rightarrow> string \<Rightarrow> string list \<Rightarrow> search_result list \<Rightarrow> vector_store \<Rightarrow>
   (error + search_result list \<times> vector_store) option" where
  "collect_results h fuel user_question [] all_results s = Some (Inr (all_results, s))"
| "collect_results h fuel user_question (pdf_file # rest) all_results s =
     (case ensure_document_indexed h fuel s pdf_file of
        None \<Rightarrow> None
      | Some (Inl e) \<Rightarrow> Some (Inl e)
      | Some (Inr s1) \<Rightarrow>
          (let chunks_info =
                 get_combined_context_for_document (rounding h) (database h (collection s1))
                   user_question pdf_file 2
           in collect_results h fuel user_question rest
                (if chunks_info \<noteq> []
                 then all_results @
                        map (\<lambda>chunk. chunk\<lparr>source_pdf := Some pdf_file\<rparr>)
                          (py_slice chunks_info 0 2)
                 else all_results) s1))"

text \<open>
  How the retrieval part of \<open>_handle_global_search\<close> ends: with the reply that nothing
  relevant was found, or with \<open>all_results\<close> sorted and \<open>best_results\<close>, its first four,
  which go to the answering collaborator.
\<close>

datatype global_outcome = Nothing_found | Found "search_result list" "search_result list"

definition handle_global_search ::
  "host \<Rightarrow> nat \<Rightarrow> string list \<Rightarrow> string \<Rightarrow> vector_store \<Rightarrow>
   (error + global_outcome \<times> vector_store) option" where
  "handle_global_search h fuel pdf_files user_question s =
     (case collect_results h fuel user_question pdf_files [] s of
        None \<Rightarrow> None
      | Some (Inl e) \<Rightarrow> Some (Inl e)
      | Some (Inr (all_results, s1)) \<Rightarrow>
          if all_results = [] then Some (Inr (Nothing_found, s1))
          else Some (Inr (Found (sort_by_score_desc all_results)
                            (py_slice (sort_by_score_desc all_results) 0 4), s1)))"

text \<open>\<open>a\<close> stands before \<open>b\<close> in the list.\<close>

definition precedes :: "'a \<Rightarrow> 'a \<Rightarrow> 'a list \<Rightarrow> bool" where
  "precedes a b xs = (\<exists>i j. i < j \<and> j < length xs \<and> xs ! i = a \<and> xs ! j = b)"

section \<open>Notions used in the statements, and sample inputs\<close>

text \<open>The distances of a backend response (none when the query raised).\<close>

definition response_distances :: "error + query_response \<Rightarrow> real list" where
  "response_distances response =
     (case response of Inl e \<Rightarrow> [] | Inr (metadatas, distances, documents) \<Rightarrow> distances)"

text \<open>Descending order of similarity score.\<close>

definition by_score_desc :: "search_result list \<Rightarrow> bool" where
  "by_score_desc results = sorted_wrt (\<lambda>a b. similarity_score b \<le> similarity_score a) results"

text \<open>The collection holds a row of the document.\<close>

definition indexed :: "vector_store \<Rightarrow> string \<Rightarrow> bool" where
  "indexed s doc = list_ex (\<lambda>r. row_metadata r ''doc_id'' = Some (MStr doc)) (collection s)"

text \<open>What a search of one document adds to the results of the global search when the
  collection holds \<open>rows\<close>: at most its first two chunks, tagged with the document.\<close>

definition document_results :: "host \<Rightarrow> row list \<Rightarrow> string \<Rightarrow> string \<Rightarrow> search_result list" where
  "document_results h rows user_question pdf_file =
     map (\<lambda>chunk. chunk\<lparr>source_pdf := Some pdf_file\<rparr>)
       (py_slice (search_in_document (rounding h) (database h rows) user_question pdf_file 2
                    (15 / 100)) 0 2)"

text \<open>\<open>VectorStore()\<close> with its default configuration, on an empty and healthy backend.\<close>

definition fresh_store :: vector_store where
  "fresh_store =
     \<lparr>chunk_size = 1000, chunk_overlap = 200, batch_size = 256, seen_hashes = {},
      collection = [], add_script = [], reconnect_script = [], reset_script = [],
      get_script = [], events = []\<rparr>"

text \<open>A text of 24 words and 123 characters; it is one chunk and passes the quality gate.\<close>

definition sample_text :: string where
  "sample_text =
     ''alpha beta gamma delta epsilon zeta eta theta iota kappa lambda mu nu xi omicron pi rho sigma tau upsilon phi chi psi omega''"


text \<open>
  A backend holding two documents. The chunks of \<open>A.pdf\<close> lie at distances \<open>0\<close>, \<open>3\<close> and
  \<open>7\<close> from the query (scores \<open>1\<close>, \<open>0.25\<close>, \<open>0.125\<close>), those of \<open>B.pdf\<close> at \<open>7\<close>, \<open>1\<close> and
  \<open>15\<close> (scores \<open>0.125\<close>, \<open>0.5\<close>, \<open>0.0625\<close>). A query with no document filter sees four
  chunks at distances \<open>1\<close>, \<open>3\<close>, \<open>0\<close> and \<open>7\<close>. On these distances the sum and the
  quotient of the score are exact in floating point.
\<close>

definition two_documents :: backend_query where
  "two_documents query n_results doc_filter =
     (if doc_filter = Some ''A.pdf''
      then Inr ([Some Map.empty, Some Map.empty, Some Map.empty], [0, 3, 7],
                [''a1'', ''a2'', ''a3''])
      else if doc_filter = Some ''B.pdf''
      then Inr ([Some Map.empty, Some Map.empty, Some Map.empty], [7, 1, 15],
                [''b1'', ''b2'', ''b3''])
      else Inr ([Some Map.empty, Some Map.empty, Some Map.empty, Some Map.empty],
                [1, 3, 0, 7], [''a1'', ''b1'', ''c1'', ''d1'']))"

text \<open>The result the searches build for a chunk without metadata.\<close>

definition hit :: "string \<Rightarrow> real \<Rightarrow> string option \<Rightarrow> search_result" where
  "hit document s pdf =
     \<lparr>doc_id = MStr [], chunk_id = MStr [], chunk_index = MInt 0, result_text = document,
      similarity_score = s, metadata = Map.empty, source_pdf = pdf\<rparr>"

text \<open>A store whose collection holds a row of \<open>A.pdf\<close> and a row of \<open>B.pdf\<close>.\<close>

definition indexed_store :: vector_store where
  "indexed_store =
     fresh_store\<lparr>collection :=
       [\<lparr>row_id = ''a_chunk_0'', row_document = ''a1'',
          row_metadata = [''doc_id'' \<mapsto> MStr ''A.pdf'']\<rparr>,
        \<lparr>row_id = ''b_chunk_0'', row_document = ''b1'',
          row_metadata = [''doc_id'' \<mapsto> MStr ''B.pdf'']\<rparr>]\<rparr>"

text \<open>A host with exact arithmetic, the identity for digest and path, no readable PDF
  file, and the backend of the two documents.\<close>

definition sample_host :: host where
  "sample_host =
     \<lparr>digest = id, absolute = id, rounding = id,
      files = (\<lambda>name. \<lparr>opened = Inl PageError, gather_cancelled = False\<rparr>),
      database = (\<lambda>rows. two_documents)\<rparr>"





section \<open>Properties of the chunker\<close>

lemma split_from_words_ok:
  "list_all (\<lambda>c. \<not> is_space c) cur \<Longrightarrow> list_all word_ok (split_from cur s)"
  by (induction s arbitrary: cur) (auto simp: word_ok_def)

lemma split_ws_words_ok: "list_all word_ok (split_ws s)"
  by (simp add: split_ws_def split_from_words_ok)

lemma split_from_append_word:
  "list_all (\<lambda>c. \<not> is_space c) w \<Longrightarrow> split_from cur (w @ s) = split_from (cur @ w) s"
  by (induction w arbitrary: cur) auto

text \<open>Splitting what \<open>" ".join\<close> made of well-formed words gives the words back.\<close>

lemma split_ws_join_space: "list_all word_ok ws \<Longrightarrow> split_ws (join_space ws) = ws"
proof (induction ws rule: join_space.induct)
  case 1
  then show ?case by (simp add: split_ws_def)
next
  case (2 w)
  then have "split_from [] (w @ []) = split_from ([] @ w) []"
    using split_from_append_word [of w "[]" "[]"] by (simp add: word_ok_def)
  with 2 show ?case by (simp add: split_ws_def word_ok_def)
next
  case (3 w v ws)
  have sp: "is_space (CHR 0x20)" by (simp add: is_space_def whitespace_chars_def)
  from 3 have w: "w \<noteq> []" "list_all (\<lambda>c. \<not> is_space c) w" by (simp_all add: word_ok_def)
  have "split_from [] (w @ CHR 0x20 # join_space (v # ws)) =
        split_from ([] @ w) (CHR 0x20 # join_space (v # ws))"
    using w(2) by (rule split_from_append_word)
  also have "\<dots> = w # split_from [] (join_space (v # ws))" using w(1) sp by simp
  also have "\<dots> = w # v # ws" using 3 by (simp add: split_ws_def)
  finally show ?case by (simp add: split_ws_def)
qed

lemma py_slice_window:
  assumes "0 \<le> start" "start \<le> end" "end \<le> int (length xs)"
  shows "py_slice xs start end @ drop (nat end) xs = drop (nat start) xs"
proof -
  have a: "slice_bound (length xs) start = nat start" "slice_bound (length xs) end = nat end"
    using assms by (auto simp: slice_bound_def)
  have "nat end - nat start + nat start = nat end" using assms by simp
  then have "drop (nat end - nat start) (drop (nat start) xs) = drop (nat end) xs"
    by simp
  moreover have "take (nat end - nat start) (drop (nat start) xs) @
      drop (nat end - nat start) (drop (nat start) xs) = drop (nat start) xs"
    by (rule append_take_drop_id)
  ultimately show ?thesis by (simp add: py_slice_def a)
qed

lemma py_slice_sublist: "list_all P xs \<Longrightarrow> list_all P (py_slice xs s e)"
  unfolding py_slice_def list_all_iff
  by (meson in_set_dropD in_set_takeD)

text \<open>
  With a positive overlap the next window start \<open>end - chunk_overlap\<close> lies before the
  end of the words whatever \<open>end\<close> was, so neither exit of the loop is ever taken.
\<close>

lemma split_loop_stalls:
  "start < int (length words) \<Longrightarrow> 0 < ov \<Longrightarrow> split_loop fuel words n ov start chunks = None"
proof (induction fuel arbitrary: start chunks)
  case 0
  then show ?case by simp
next
  case (Suc fuel)
  let ?e = "min (start + n) (int (length words))"
  have "?e - ov < int (length words)" using Suc.prems by simp
  with Suc show ?case by (simp add: Let_def)
qed

text \<open>
  Without overlap the windows tile the words: the loop returns once it has as much
  fuel as there are words left, and the chunks it adds split back into those words.
\<close>

lemma split_loop_no_overlap:
  assumes "list_all word_ok words" "0 < n"
  shows "0 \<le> start \<Longrightarrow> start < int (length words) \<Longrightarrow>
     nat (int (length words) - start) \<le> fuel \<Longrightarrow>
     \<exists>new. split_loop fuel words n 0 start chunks = Some (chunks @ new) \<and>
           concat (map split_ws new) = drop (nat start) words"
proof (induction fuel arbitrary: start chunks)
  case 0
  then show ?case by simp
next
  case (Suc fuel)
  define e where "e = min (start + n) (int (length words))"
  define chunk where "chunk = join_space (py_slice words start e)"
  have e: "start \<le> e" "e \<le> int (length words)" "start < e"
    using Suc.prems assms(2) by (auto simp: e_def)
  have "list_all word_ok (py_slice words start e)" using assms(1) by (rule py_slice_sublist)
  then have ch: "split_ws chunk = py_slice words start e"
    by (simp add: chunk_def split_ws_join_space)
  have win: "py_slice words start e @ drop (nat e) words = drop (nat start) words"
    using Suc.prems(1) e(1,2) by (rule py_slice_window)
  show ?case
  proof (cases "e \<ge> int (length words)")
    case True
    then have "nat e = length words" using e by simp
    with win have "concat (map split_ws [chunk]) = drop (nat start) words" by (simp add: ch)
    moreover have "split_loop (Suc fuel) words n 0 start chunks = Some (chunks @ [chunk])"
      using True Suc.prems by (simp add: Let_def e_def [symmetric] chunk_def [symmetric])
    ultimately show ?thesis by blast
  next
    case False
    then have "0 \<le> e" "e < int (length words)" "nat (int (length words) - e) \<le> fuel"
      using e Suc.prems by auto
    from Suc.IH [OF this, of "chunks @ [chunk]"] obtain new where
      new: "split_loop fuel words n 0 e ((chunks @ [chunk])) = Some ((chunks @ [chunk]) @ new)"
           "concat (map split_ws new) = drop (nat e) words" by blast
    have "split_loop (Suc fuel) words n 0 start chunks = Some (chunks @ (chunk # new))"
      using False Suc.prems new(1) by (simp add: Let_def e_def [symmetric] chunk_def [symmetric])
    moreover have "concat (map split_ws (chunk # new)) = drop (nat start) words"
      using ch new(2) win by simp
    ultimately show ?thesis by blast
  qed
qed

text \<open>
  C1 (the code does not do this). The claim: for a text with more words than
  \<open>chunk_size\<close> and a configuration with \<open>0 < overlap < chunk_size\<close>,
  \<open>_split_text_into_chunks\<close> terminates with a finite sequence of chunks. The loop as
  written does the opposite: under exactly these conditions it returns with no amount
  of fuel. Once a window reaches the end of the text, the next start is
  \<open>len(words) - overlap\<close>, which is below \<open>len(words)\<close>, and the same last window is
  appended again and again.
\<close>

theorem split_text_into_chunks_never_returns:
  assumes "n < int (length (split_ws s))" "0 < ov" "ov < n"
  shows "split_text_into_chunks fuel n ov s = None"
proof -
  have "0 < int (length (split_ws s))" using assms by linarith
  then have "split_loop fuel (split_ws s) n ov 0 [] = None"
    using assms(2) by (rule split_loop_stalls)
  with assms(1) show ?thesis by (simp add: split_text_into_chunks_def)
qed

theorem split_text_into_chunks_never_returns_witness:
  "(2::int) < int (length (split_ws ''a b c'')) \<and> (0::int) < 1 \<and> (1::int) < 2 \<and>
   (\<forall>fuel. split_text_into_chunks fuel 2 1 ''a b c'' = None)"
proof -
  have len: "(2::int) < int (length (split_ws ''a b c''))"
    by (simp add: split_ws_def is_space_def whitespace_chars_def)
  have "split_text_into_chunks fuel 2 1 ''a b c'' = None" for fuel
    using len by (rule split_text_into_chunks_never_returns) simp_all
  with len show ?thesis by simp
qed

text \<open>
  The same for a run on any fuel: what the loop returns, if it returns, is the chunks
  it had plus chunks that split back into the words left.
\<close>

lemma split_loop_no_overlap_result:
  assumes "list_all word_ok words" "0 < n"
  shows "0 \<le> start \<Longrightarrow> start < int (length words) \<Longrightarrow>
     split_loop fuel words n 0 start chunks = Some res \<Longrightarrow>
     \<exists>new. res = chunks @ new \<and> concat (map split_ws new) = drop (nat start) words"
proof (induction fuel arbitrary: start chunks)
  case 0
  then show ?case by simp
next
  case (Suc fuel)
  define e where "e = min (start + n) (int (length words))"
  define chunk where "chunk = join_space (py_slice words start e)"
  have e: "start \<le> e" "e \<le> int (length words)" "start < e"
    using Suc.prems assms(2) by (auto simp: e_def)
  have "list_all word_ok (py_slice words start e)" using assms(1) by (rule py_slice_sublist)
  then have ch: "split_ws chunk = py_slice words start e"
    by (simp add: chunk_def split_ws_join_space)
  have win: "py_slice words start e @ drop (nat e) words = drop (nat start) words"
    using Suc.prems(1) e(1,2) by (rule py_slice_window)
  have step: "split_loop (Suc fuel) words n 0 start chunks =
      (if e \<ge> int (length words) then Some (chunks @ [chunk])
       else split_loop fuel words n 0 e (chunks @ [chunk]))"
    using Suc.prems(2) by (simp add: Let_def e_def [symmetric] chunk_def [symmetric])
  show ?case
  proof (cases "e \<ge> int (length words)")
    case True
    then have "nat e = length words" using e by simp
    with win have "concat (map split_ws [chunk]) = drop (nat start) words" by (simp add: ch)
    moreover have "res = chunks @ [chunk]" using True Suc.prems(3) step by simp
    ultimately show ?thesis by blast
  next
    case False
    then have "0 \<le> e" "e < int (length words)"
      and "split_loop fuel words n 0 e (chunks @ [chunk]) = Some res"
      using e Suc.prems step by auto
    from Suc.IH [OF this] obtain new where
      new: "res = (chunks @ [chunk]) @ new" "concat (map split_ws new) = drop (nat e) words"
      by blast
    have "res = chunks @ (chunk # new)" using new(1) by simp
    moreover have "concat (map split_ws (chunk # new)) = drop (nat start) words"
      using ch new(2) win by simp
    ultimately show ?thesis by blast
  qed
qed

text \<open>
  A chunk size that is not positive stalls the loop on any text that has a word: the
  window start never moves forward.
\<close>

lemma split_loop_nonpositive_size:
  "n \<le> 0 \<Longrightarrow> start \<le> 0 \<Longrightarrow> 0 < length words \<Longrightarrow>
   split_loop fuel words n 0 start chunks = None"
proof (induction fuel arbitrary: start chunks)
  case 0
  then show ?case by simp
next
  case (Suc fuel)
  have m: "min (start + n) (int (length words)) = start + n" using Suc.prems by simp
  have lt: "start < int (length words)" "\<not> int (length words) \<le> start + n"
    using Suc.prems by linarith+
  have "split_loop fuel words n 0 (start + n)
          (chunks @ [join_space (py_slice words start (start + n))]) = None"
    using Suc.prems by (intro Suc.IH) simp_all
  with lt show ?case by (simp add: Let_def m)
qed

lemma split_loop_no_words: "split_loop fuel [] n 0 0 [] = Some chunks \<Longrightarrow> chunks = []"
  by (cases fuel) simp_all

text \<open>
  C5. With \<open>overlap = 0\<close>, for every text and every chunk size \<open>n\<close>: the word sequences
  of the chunks \<open>_split_text_into_chunks\<close> returns, concatenated in order, are the word
  sequence of the text. For a chunk size of at least one word the function does
  return, given fuel for one iteration per word. (For a chunk size below one it
  returns nothing on a text that has a word, by \<open>split_loop_nonpositive_size\<close>.)
\<close>

theorem chunks_reproduce_words:
  "(split_text_into_chunks fuel n 0 s = Some chunks \<longrightarrow>
      concat (map split_ws chunks) = split_ws s) \<and>
   (0 < n \<and> length (split_ws s) \<le> fuel \<longrightarrow>
      (\<exists>chunks. split_text_into_chunks fuel n 0 s = Some chunks))"
proof (cases "int (length (split_ws s)) \<le> n")
  case True
  then show ?thesis by (auto simp: split_text_into_chunks_def)
next
  case False
  then have unfold: "split_text_into_chunks fuel n 0 s = split_loop fuel (split_ws s) n 0 0 []"
    by (simp add: split_text_into_chunks_def)
  show ?thesis
  proof (cases "0 < n")
    case True
    with False have pos: "0 < int (length (split_ws s))" by linarith
    have part: "concat (map split_ws chunks) = split_ws s"
      if "split_loop fuel (split_ws s) n 0 0 [] = Some chunks"
      using split_loop_no_overlap_result [OF split_ws_words_ok True order_refl pos that]
      by simp
    have total: "\<exists>chunks. split_loop fuel (split_ws s) n 0 0 [] = Some chunks"
      if "length (split_ws s) \<le> fuel"
    proof -
      have "nat (int (length (split_ws s)) - 0) \<le> fuel" using that by simp
      with split_loop_no_overlap [OF split_ws_words_ok True order_refl pos, of fuel "[]"]
      show ?thesis by blast
    qed
    from part total show ?thesis unfolding unfold by blast
  next
    case neg: False
    show ?thesis
    proof (cases "split_ws s = []")
      case True
      then show ?thesis using neg unfolding unfold by (auto dest: split_loop_no_words)
    next
      case nonempty: False
      have "split_loop fuel (split_ws s) n 0 0 [] = None"
        using neg nonempty by (intro split_loop_nonpositive_size) simp_all
      then show ?thesis using neg unfolding unfold by simp
    qed
  qed
qed

theorem chunks_reproduce_words_witness:
  "(0::int) < 2 \<and> length (split_ws ''a b  c d e'') \<le> 5 \<and>
   split_text_into_chunks 5 2 0 ''a b  c d e'' = Some [''a b'', ''c d'', ''e''] \<and>
   concat (map split_ws [''a b'', ''c d'', ''e'']) = split_ws ''a b  c d e'' \<and>
   split_ws ''a b  c d e'' = [''a'', ''b'', ''c'', ''d'', ''e'']"
proof -
  have w: "split_ws ''a b  c d e'' = [''a'', ''b'', ''c'', ''d'', ''e'']"
    by (simp add: split_ws_def is_space_def whitespace_chars_def)
  have run: "split_text_into_chunks 5 2 0 ''a b  c d e'' = Some [''a b'', ''c d'', ''e'']"
    by (simp add: split_text_into_chunks_def w py_slice_def slice_bound_def eval_nat_numeral)
  from chunks_reproduce_words [of 5 2 "''a b  c d e''" "[''a b'', ''c d'', ''e'']"] run
  have "concat (map split_ws [''a b'', ''c d'', ''e'']) = split_ws ''a b  c d e''"
    by blast
  with w run show ?thesis by simp
qed

section \<open>Properties of the index\<close>

subsection \<open>What the backend calls change\<close>

lemma collection_add_events:
  "events (snd (collection_add s d m i)) = events s @ [Add_call]"
  "add_script (snd (collection_add s d m i)) = tl (add_script s)"
  by (simp_all add: collection_add_def Let_def)


lemma reconnect_client_fields:
  "events (snd (reconnect_client s)) = events s @ [Reconnect_call]"
  "add_script (snd (reconnect_client s)) = add_script s"
  "seen_hashes (snd (reconnect_client s)) = seen_hashes s"
  "collection (snd (reconnect_client s)) = collection s"
  by (simp_all add: reconnect_client_def Let_def)

lemma sleep_fields:
  "events (sleep k s) = events s @ [Sleep_call k]"
  "add_script (sleep k s) = add_script s"
  "seen_hashes (sleep k s) = seen_hashes s"
  "collection (sleep k s) = collection s"
  by (simp_all add: sleep_def)

lemma range_max_retries: "[0..<3] = [0, 1, 2]"
  by (simp add: upt_rec)

text \<open>One pass of the retry loop, by the outcome of its write.\<close>

lemma add_batch_attempts_step:
  "add_batch_attempts (a # rest) mr bo s d m i =
     (if next_outcome (add_script s) then (True, snd (collection_add s d m i))
      else if a < mr - 1
        then add_batch_attempts rest mr (bo * 2)
               (snd (reconnect_client (sleep bo (snd (collection_add s d m i))))) d m i
      else (False, snd (collection_add s d m i)))"
  by (simp add: collection_add_def Let_def)

subsection \<open>The retry schedule of \<open>_add_batch\<close>\<close>

text \<open>
  C3, as the code has it. \<open>_add_batch\<close> calls the backend write at most three times
  and returns \<open>True\<close> at the first call that succeeds. After the first failed call it
  sleeps 1 second and after the second 2 seconds, and after each of these two sleeps
  it attempts a fresh backend connection (whose own failure changes nothing) before
  the next call. A third failure ends the run: \<open>False\<close> is returned, and nothing, no
  reconnect either, follows that last call.
\<close>

theorem add_batch_retry_schedule:
  "fst (add_batch s documents metadatas ids) =
     (next_outcome (add_script s) \<or> next_outcome (tl (add_script s)) \<or>
      next_outcome (tl (tl (add_script s)))) \<and>
   events (snd (add_batch s documents metadatas ids)) = events s @
     (if next_outcome (add_script s) then [Add_call]
      else if next_outcome (tl (add_script s))
        then [Add_call, Sleep_call 1, Reconnect_call, Add_call]
      else [Add_call, Sleep_call 1, Reconnect_call, Add_call,
            Sleep_call 2, Reconnect_call, Add_call])"
  by (simp add: add_batch_def range_max_retries add_batch_attempts_step collection_add_events
      reconnect_client_fields sleep_fields del: add_batch_attempts.simps(2))

theorem add_batch_retry_schedule_witness:
  "fst (add_batch (fresh_store\<lparr>add_script := [False, True], reconnect_script := [False]\<rparr>)
         [sample_text] [Map.empty] [''id0'']) = True \<and>
   events (snd (add_batch (fresh_store\<lparr>add_script := [False, True], reconnect_script := [False]\<rparr>)
         [sample_text] [Map.empty] [''id0''])) =
     [Add_call, Sleep_call 1, Reconnect_call, Add_call] \<and>
   fst (add_batch (fresh_store\<lparr>add_script := [False, False, False, True]\<rparr>)
         [sample_text] [Map.empty] [''id0'']) = False \<and>
   events (snd (add_batch (fresh_store\<lparr>add_script := [False, False, False, True]\<rparr>)
         [sample_text] [Map.empty] [''id0''])) =
     [Add_call, Sleep_call 1, Reconnect_call, Add_call, Sleep_call 2, Reconnect_call, Add_call]"
  using
    add_batch_retry_schedule
      [of "fresh_store\<lparr>add_script := [False, True], reconnect_script := [False]\<rparr>"
          "[sample_text]" "[Map.empty]" "[''id0'']"]
    add_batch_retry_schedule
      [of "fresh_store\<lparr>add_script := [False, False, False, True]\<rparr>"
          "[sample_text]" "[Map.empty]" "[''id0'']"]
  by (simp add: fresh_store_def next_outcome_def)

text \<open>
  Against the claim as it was stated (a fresh connection is attempted when all attempts
  have failed): on a backend that fails three writes in a row the run ends with the
  third write; both reconnects came before it.
\<close>

theorem add_batch_no_reconnect_after_last_failure:
  "fst (add_batch (fresh_store\<lparr>add_script := [False, False, False]\<rparr>)
         [sample_text] [Map.empty] [''id0'']) = False \<and>
   events (snd (add_batch (fresh_store\<lparr>add_script := [False, False, False]\<rparr>)
         [sample_text] [Map.empty] [''id0''])) =
     [Add_call, Sleep_call 1, Reconnect_call, Add_call, Sleep_call 2, Reconnect_call, Add_call] \<and>
   Reconnect_call \<notin> set (events_after_last_add (events (snd
       (add_batch (fresh_store\<lparr>add_script := [False, False, False]\<rparr>)
         [sample_text] [Map.empty] [''id0'']))))"
  by (simp add: add_batch_def range_max_retries collection_add_def reconnect_client_def sleep_def
      next_outcome_def fresh_store_def events_after_last_add_def Let_def)

subsection \<open>The keyed collection\<close>






subsection \<open>What \<open>_add_batch\<close> leaves in the store\<close>





subsection \<open>Chunk ids\<close>







subsection \<open>\<open>seen_hashes\<close> and the rows after \<open>add_document\<close>\<close>









subsection \<open>Runs of \<open>add_document\<close> on the sample text\<close>







subsection \<open>The dedup cache\<close>




subsection \<open>\<open>clear_all\<close>\<close>

text \<open>
  C10. If the backend reset inside \<open>clear_all\<close> raises, \<open>clear_all\<close> returns \<open>False\<close>
  and leaves \<open>seen_hashes\<close> (and the persisted rows) as they were: the cache is
  cleared only after the reset has returned.
\<close>

theorem clear_all_failed_reset:
  assumes "fst (client_reset s) = Inl e"
  shows "fst (clear_all s) = False \<and> seen_hashes (snd (clear_all s)) = seen_hashes s \<and>
         collection (snd (clear_all s)) = collection s"
  using assms by (simp add: clear_all_def client_reset_def Let_def split: if_splits)

theorem clear_all_failed_reset_witness:
  "fst (client_reset (fresh_store\<lparr>seen_hashes := {''h0''}, reset_script := [False]\<rparr>)) =
     Inl BackendError \<and>
   fst (clear_all (fresh_store\<lparr>seen_hashes := {''h0''}, reset_script := [False]\<rparr>)) = False \<and>
   seen_hashes (snd (clear_all (fresh_store\<lparr>seen_hashes := {''h0''}, reset_script := [False]\<rparr>))) =
     {''h0''}"
proof -
  have a: "fst (client_reset (fresh_store\<lparr>seen_hashes := {''h0''}, reset_script := [False]\<rparr>)) =
     Inl BackendError"
    by (simp add: client_reset_def fresh_store_def next_outcome_def)
  show ?thesis using a clear_all_failed_reset [OF a] by (simp add: fresh_store_def)
qed

section \<open>Properties of the retrieval\<close>

subsection \<open>Slices, sorting and the filter\<close>

lemma py_slice_prefix: "py_slice xs 0 n = take (slice_bound (length xs) n) xs"
  by (simp add: py_slice_def slice_bound_def)

lemma py_slice_prefix_length: "0 \<le> n \<Longrightarrow> int (length (py_slice xs 0 n)) \<le> n"
  by (simp add: py_slice_prefix slice_bound_def)

lemma set_py_slice: "set (py_slice xs a b) \<subseteq> set xs"
  unfolding py_slice_def by (meson in_set_dropD in_set_takeD subsetI)

lemma by_score_desc_sort: "by_score_desc (sort_by_score_desc xs)"
proof -
  have "sorted (map (\<lambda>r. - similarity_score r) (sort_key (\<lambda>r. - similarity_score r) xs))"
    by (rule sorted_sort_key)
  then show ?thesis by (simp add: by_score_desc_def sort_by_score_desc_def sorted_map)
qed

lemma by_score_desc_prefix: "by_score_desc xs \<Longrightarrow> by_score_desc (py_slice xs 0 n)"
  by (simp add: by_score_desc_def py_slice_prefix sorted_wrt_take)

lemma set_sort_by_score_desc: "set (sort_by_score_desc xs) = set xs"
  by (simp add: sort_by_score_desc_def)

lemma sort_by_score_desc_length: "length (sort_by_score_desc xs) = length xs"
  by (simp add: sort_by_score_desc_def)

text \<open>What the filtering loop lets through reaches the threshold and carries the score
  of one of the rows.\<close>

lemma filter_results_sound:
  "filter_results fl t rows = Inr results \<Longrightarrow>
   list_all (\<lambda>r. t \<le> similarity_score r \<and>
       (\<exists>d \<in> set (map (fst \<circ> snd) rows). similarity_score r = score fl d)) results"
proof (induction rows arbitrary: results)
  case Nil
  then show ?case by simp
next
  case (Cons row rows)
  obtain md d doc where row: "row = (md, d, doc)" by (cases row) auto
  show ?case
  proof (cases "fl (1 + d) \<noteq> 0 \<and> t \<le> score fl d")
    case True
    with Cons.prems row obtain m rs where
      m: "md = Some m" and rs: "filter_results fl t rows = Inr rs" and
      res: "results = \<lparr>doc_id = get_default m ''doc_id'' (MStr []),
                       chunk_id = get_default m ''chunk_id'' (MStr []),
                       chunk_index = get_default m ''chunk_index'' (MInt 0),
                       result_text = doc, similarity_score = score fl d, metadata = m,
                       source_pdf = None\<rparr> # rs"
      by (auto split: option.splits sum.splits)
    from Cons.IH [OF rs] have "list_all (\<lambda>r. t \<le> similarity_score r \<and>
       (\<exists>d \<in> set (map (fst \<circ> snd) (row # rows)). similarity_score r = score fl d)) rs"
      by (auto simp: list_all_iff)
    with True res row show ?thesis by simp
  next
    case False
    with Cons.prems row have "filter_results fl t rows = Inr results"
      by (auto split: if_splits)
    from Cons.IH [OF this] show ?thesis by (auto simp: list_all_iff)
  qed
qed

lemma rank_response_sound:
  "list_all (\<lambda>r. t \<le> similarity_score r \<and>
      (\<exists>d \<in> set (response_distances response). similarity_score r = score fl d))
     (rank_response fl n t response)"
proof (cases response)
  case (Inl e)
  then show ?thesis by (simp add: rank_response_def)
next
  case (Inr resp)
  obtain ms ds docs where resp: "resp = (ms, ds, docs)" by (cases resp) auto
  show ?thesis
  proof (cases "filter_results fl t (zip ms (zip ds docs))")
    case (Inl e)
    with Inr resp show ?thesis by (simp add: rank_response_def)
  next
    case r: (Inr fr)
    have sub: "set (map (fst \<circ> snd) (zip ms (zip ds docs))) \<subseteq> set ds"
    proof
      fix d assume "d \<in> set (map (fst \<circ> snd) (zip ms (zip ds docs)))"
      then obtain m doc where "(m, d, doc) \<in> set (zip ms (zip ds docs))" by auto
      then have "(d, doc) \<in> set (zip ds docs)" by (rule set_zip_rightD)
      then show "d \<in> set ds" by (rule set_zip_leftD)
    qed
    from filter_results_sound [OF r] sub
    have "list_all (\<lambda>r. t \<le> similarity_score r \<and>
       (\<exists>d \<in> set ds. similarity_score r = score fl d)) fr"
      unfolding list_all_iff by blast
    then have "list_all (\<lambda>r. t \<le> similarity_score r \<and>
       (\<exists>d \<in> set ds. similarity_score r = score fl d)) (py_slice (sort_by_score_desc fr) 0 n)"
      using set_py_slice [of "sort_by_score_desc fr" 0 n]
      unfolding list_all_iff set_sort_by_score_desc by blast
    with Inr resp r show ?thesis by (simp add: rank_response_def response_distances_def)
  qed
qed

lemma rank_response_sorted: "by_score_desc (rank_response fl n t response)"
  by (auto simp: rank_response_def by_score_desc_sort by_score_desc_prefix
        intro: by_score_desc_prefix split: sum.splits prod.splits)
     (simp_all add: by_score_desc_def)

lemma rank_response_length: "0 \<le> n \<Longrightarrow> int (length (rank_response fl n t response)) \<le> n"
  by (auto simp: rank_response_def py_slice_prefix_length split: sum.splits prod.splits)

subsection \<open>\<open>search\<close>\<close>

text \<open>
  C4. Whatever the query, the threshold \<open>t\<close>, the backend's response and the rounding of
  the float arithmetic, every result of \<open>search\<close> has a similarity score of at least
  \<open>t\<close>, which is \<open>1/(1+distance)\<close> as the floats compute it for a distance of the
  response; the results are in descending order of score; and for a result count \<open>n\<close>
  that is not negative there are at most \<open>n\<close> of them. With \<open>t = 0.9\<close> no result scores
  below \<open>0.9\<close>.
\<close>

theorem search_threshold_sorted_bounded:
  "list_all (\<lambda>r. t \<le> similarity_score r \<and>
      (\<exists>d \<in> set (response_distances (backend q (n * 2) None)). similarity_score r = score fl d))
     (search fl backend q n t) \<and>
   by_score_desc (search fl backend q n t) \<and>
   (0 \<le> n \<longrightarrow> int (length (search fl backend q n t)) \<le> n)"
  by (simp add: search_def rank_response_sound rank_response_sorted rank_response_length)

lemma two_documents_search:
  "search id two_documents ''q'' 2 (1 / 2) = [hit ''c1'' 1 None, hit ''a1'' (1 / 2) None]"
  "search id two_documents ''q'' 2 (9 / 10) = [hit ''c1'' 1 None]"
  by (simp_all add: search_def rank_response_def two_documents_def score_def get_default_def
      sort_by_score_desc_def py_slice_def slice_bound_def hit_def)

theorem search_threshold_sorted_bounded_witness:
  "(0::int) \<le> 2 \<and>
   search id two_documents ''q'' 2 (9 / 10) = [hit ''c1'' 1 None] \<and>
   list_all (\<lambda>r. 9 / 10 \<le> similarity_score r) (search id two_documents ''q'' 2 (9 / 10)) \<and>
   by_score_desc (search id two_documents ''q'' 2 (9 / 10)) \<and>
   int (length (search id two_documents ''q'' 2 (9 / 10))) \<le> 2 \<and>
   search id two_documents ''q'' 2 (1 / 2) = [hit ''c1'' 1 None, hit ''a1'' (1 / 2) None] \<and>
   list_all (\<lambda>r. 1 / 2 \<le> similarity_score r) (search id two_documents ''q'' 2 (1 / 2)) \<and>
   by_score_desc (search id two_documents ''q'' 2 (1 / 2))"
  using search_threshold_sorted_bounded [of "9 / 10" two_documents "''q''" 2 id]
    search_threshold_sorted_bounded [of "1 / 2" two_documents "''q''" 2 id]
  by (simp add: two_documents_search list_all_iff)

subsection \<open>\<open>_ensure_document_indexed\<close>\<close>

text \<open>For a document the collection holds a row of, the indexing is one lookup and
  leaves the collection as it is.\<close>

lemma ensure_document_indexed_present:
  assumes "indexed s doc" and "next_outcome (get_script s)"
  shows "ensure_document_indexed h fuel s doc =
           Some (Inr (s\<lparr>events := events s @ [Get_call], get_script := tl (get_script s)\<rparr>))"
  using assms by (simp add: ensure_document_indexed_def has_document_def indexed_def Let_def)

text \<open>No exception derived from \<open>Exception\<close> leaves the indexing.\<close>

lemma ensure_document_indexed_escapes:
  "ensure_document_indexed h fuel s doc = Some (Inl e) \<Longrightarrow> \<not> is_Exception e"
  by (auto simp: ensure_document_indexed_def Let_def
      split: prod.splits bool.splits sum.splits if_splits option.splits)

subsection \<open>\<open>_handle_global_search\<close>\<close>

lemma py_slice_prefix_length_2: "length (py_slice xs 0 2) \<le> 2"
  using py_slice_prefix_length [of 2 xs] by simp

text \<open>One pass of the loop, when the indexing returns.\<close>

lemma collect_results_step:
  assumes "ensure_document_indexed h fuel s pdf = Some (Inr s1)"
  shows "collect_results h fuel q (pdf # pdfs) acc s =
           collect_results h fuel q pdfs
             (acc @ document_results h (collection s1) q pdf) s1"
  using assms
  by (simp add: document_results_def get_combined_context_for_document_def Let_def
        py_slice_def)

lemma collect_results_returns:
  assumes "collect_results h fuel q (pdf # pdfs) acc s = Some (Inr (all_results, s'))"
  shows "\<exists>s1. ensure_document_indexed h fuel s pdf = Some (Inr s1)"
  using assms by (auto split: option.splits sum.splits)

text \<open>Each pass of the loop adds at most two results, all tagged with its document.\<close>

lemma document_results_count:
  "length (filter (\<lambda>r. source_pdf r = Some d) (document_results h rows q pdf)) \<le>
     (if pdf = d then 2 else 0)"
proof (cases "pdf = d")
  case True
  have "length (filter (\<lambda>r. source_pdf r = Some d) (document_results h rows q pdf)) \<le>
          length (document_results h rows q pdf)"
    by (rule length_filter_le)
  also have "\<dots> \<le> 2" by (simp add: document_results_def py_slice_prefix_length_2)
  finally show ?thesis using True by simp
next
  case False
  then have "filter (\<lambda>r. source_pdf r = Some d) (document_results h rows q pdf) = []"
    by (auto simp: document_results_def filter_empty_conv)
  with False show ?thesis by simp
qed

lemma collect_results_per_document:
  "collect_results h fuel q pdfs acc s = Some (Inr (all_results, s')) \<Longrightarrow>
   length (filter (\<lambda>r. source_pdf r = Some d) all_results) \<le>
     length (filter (\<lambda>r. source_pdf r = Some d) acc) + 2 * count_list pdfs d"
proof (induction pdfs arbitrary: acc s)
  case Nil
  then show ?case by simp
next
  case (Cons pdf pdfs)
  from collect_results_returns [OF Cons.prems] obtain s1 where
    s1: "ensure_document_indexed h fuel s pdf = Some (Inr s1)" ..
  from Cons.prems have "collect_results h fuel q pdfs
      (acc @ document_results h (collection s1) q pdf) s1 = Some (Inr (all_results, s'))"
    unfolding collect_results_step [OF s1] .
  from Cons.IH [OF this] document_results_count [of d h "collection s1" q pdf]
  show ?case by (simp split: if_splits)
qed

text \<open>When every listed document is in the collection and the lookups do not fail, the
  loop returns with the results of the documents, in the order of the list.\<close>

lemma collect_results_indexed:
  assumes "list_all (indexed s) pdfs" and "list_all (\<lambda>ok. ok) (get_script s)"
  shows "\<exists>s'. collect_results h fuel q pdfs acc s =
            Some (Inr (acc @ concat (map (document_results h (collection s) q) pdfs), s')) \<and>
          collection s' = collection s"
  using assms
proof (induction pdfs arbitrary: acc s)
  case Nil
  then show ?case by simp
next
  case (Cons pdf pdfs)
  define s1 where "s1 = s\<lparr>events := events s @ [Get_call], get_script := tl (get_script s)\<rparr>"
  from Cons.prems(2) have ok: "next_outcome (get_script s)"
    by (cases "get_script s") (simp_all add: next_outcome_def)
  from Cons.prems(1) have "indexed s pdf" by simp
  from ensure_document_indexed_present [OF this ok]
  have e: "ensure_document_indexed h fuel s pdf = Some (Inr s1)" by (simp add: s1_def)
  have c: "collection s1 = collection s" by (simp add: s1_def)
  have "indexed s1 = indexed s" by (rule ext) (simp add: indexed_def c)
  with Cons.prems(1) have i: "list_all (indexed s1) pdfs" by simp
  from Cons.prems(2) have g: "list_all (\<lambda>ok. ok) (get_script s1)"
    by (cases "get_script s") (simp_all add: s1_def)
  from Cons.IH [OF i g, of "acc @ document_results h (collection s1) q pdf"]
  show ?case unfolding collect_results_step [OF e] c by simp
qed

text \<open>In a list in descending order, a result with the higher score stands before any
  result with a lower score, and so it is inside every prefix the lower one is in.\<close>

lemma sorted_desc_precedes:
  assumes srt: "by_score_desc xs" and a: "a \<in> set xs" and b: "b \<in> set (take k xs)"
    and lt: "similarity_score b < similarity_score a"
  shows "precedes a b (take k xs)"
proof -
  from b obtain j where j: "j < length (take k xs)" "take k xs ! j = b"
    by (auto simp: in_set_conv_nth)
  then have jk: "j < k" "j < length xs" "xs ! j = b" by simp_all
  from a obtain i where i: "i < length xs" "xs ! i = a" by (auto simp: in_set_conv_nth)
  have "i < j"
  proof (rule ccontr)
    assume "\<not> i < j"
    with lt i(2) jk(3) have "j < i" by (cases "i = j") auto
    with srt i(1) have "similarity_score (xs ! i) \<le> similarity_score (xs ! j)"
      by (simp add: by_score_desc_def sorted_wrt_iff_nth_less)
    with lt i(2) jk(3) show False by simp
  qed
  with jk i have "i < j" "j < length (take k xs)" "take k xs ! i = a" "take k xs ! j = b"
    using j by simp_all
  then show ?thesis unfolding precedes_def by blast
qed

lemma sorted_desc_precedes_slice:
  assumes "a \<in> set xs" and "b \<in> set (py_slice (sort_by_score_desc xs) 0 n)"
    and "similarity_score b < similarity_score a"
  shows "precedes a b (py_slice (sort_by_score_desc xs) 0 n)"
  using assms(2) unfolding py_slice_prefix
  by (intro sorted_desc_precedes by_score_desc_sort)
     (simp_all add: set_sort_by_score_desc assms(1,3))

lemma py_slice_whole: "int (length xs) \<le> n \<Longrightarrow> py_slice xs 0 n = xs"
  by (simp add: py_slice_prefix slice_bound_def)

lemma document_results_head:
  assumes "search_in_document (rounding h) (database h rows) q pdf 2 (15 / 100) = r # rs"
  shows "r\<lparr>source_pdf := Some pdf\<rparr> \<in> set (document_results h rows q pdf)"
  using assms by (simp add: document_results_def py_slice_def slice_bound_def)

text \<open>
  The indexing of a document that is not in the collection hands its text to
  \<open>add_document\<close>. With the default overlap and a text of more words than \<open>chunk_size\<close>
  the chunker does not return, and then neither does the global search.
\<close>

lemma ensure_document_indexed_stalls:
  assumes "\<not> indexed s doc"
    and "extract_paragraphs_from_pdf (files h doc) = Inr paragraphs" and "paragraphs \<noteq> []"
    and "chunk_size s < int (length (split_ws (join_with [CHR 0x0A, CHR 0x0A] paragraphs)))"
    and "0 \<le> chunk_size s" and "0 < chunk_overlap s"
  shows "ensure_document_indexed h fuel s doc = None"
proof -
  have "0 < int (length (split_ws (join_with [CHR 0x0A, CHR 0x0A] paragraphs)))"
    using assms(4,5) by linarith
  then have "split_loop fuel (split_ws (join_with [CHR 0x0A, CHR 0x0A] paragraphs))
      (chunk_size s) (chunk_overlap s) 0 [] = None"
    using assms(6) by (rule split_loop_stalls)
  with assms(4) have "split_text_into_chunks fuel (chunk_size s) (chunk_overlap s)
      (join_with [CHR 0x0A, CHR 0x0A] paragraphs) = None"
    by (simp add: split_text_into_chunks_def)
  with assms(1,2,3) show ?thesis
    by (simp add: ensure_document_indexed_def has_document_def indexed_def add_document_def
        Let_def)
qed

lemma global_search_stalls:
  assumes "ensure_document_indexed h fuel s doc = None"
  shows "handle_global_search h fuel (doc # pdfs) q s = None"
  using assms by (simp add: handle_global_search_def)

text \<open>
  C6. A run of the global search that ends with results: \<open>all_results\<close> is in descending
  order of similarity score, \<open>best_results\<close> is its first four, a document contributes
  at most two results for each time it is listed, and a result \<open>a\<close> that scores higher
  than a result \<open>b\<close> of \<open>best_results\<close> is in \<open>best_results\<close> too, before \<open>b\<close>. And the run
  does end so when the collection holds every listed document and its lookups do not
  fail: then \<open>all_results\<close> is the sorted concatenation of what the searches of the
  documents give (at most the first two chunks of each, tagged with the document), the
  collection is left as it was, and if the searches of two listed documents \<open>A\<close> and \<open>B\<close>
  have the best chunks \<open>a0\<close> and \<open>b0\<close>, \<open>a0\<close> scoring higher, then the chunk of \<open>A\<close> stands
  before the chunk of \<open>B\<close> in \<open>all_results\<close>, and in \<open>best_results\<close> whenever the chunk of
  \<open>B\<close> is among them.
\<close>

theorem global_search_merge:
  "(handle_global_search h fuel pdfs q s = Some (Inr (Found all_results best_results, s')) \<longrightarrow>
      by_score_desc all_results \<and>
      best_results = py_slice all_results 0 4 \<and>
      length best_results \<le> 4 \<and>
      length (filter (\<lambda>r. source_pdf r = Some d) all_results) \<le> 2 * count_list pdfs d \<and>
      (a \<in> set all_results \<and> b \<in> set best_results \<and>
       similarity_score b < similarity_score a \<longrightarrow> precedes a b best_results)) \<and>
   (list_all (indexed s) pdfs \<and> list_all (\<lambda>ok. ok) (get_script s) \<and>
    A \<in> set pdfs \<and> B \<in> set pdfs \<and>
    search_in_document (rounding h) (database h (collection s)) q A 2 (15 / 100) = a0 # ra \<and>
    search_in_document (rounding h) (database h (collection s)) q B 2 (15 / 100) = b0 # rb \<and>
    similarity_score b0 < similarity_score a0 \<longrightarrow>
      (\<exists>s2. handle_global_search h fuel pdfs q s =
              Some (Inr (Found
                (sort_by_score_desc (concat (map (document_results h (collection s) q) pdfs)))
                (py_slice
                  (sort_by_score_desc (concat (map (document_results h (collection s) q) pdfs)))
                  0 4), s2)) \<and>
            collection s2 = collection s) \<and>
      precedes (a0\<lparr>source_pdf := Some A\<rparr>) (b0\<lparr>source_pdf := Some B\<rparr>)
        (sort_by_score_desc (concat (map (document_results h (collection s) q) pdfs))) \<and>
      (b0\<lparr>source_pdf := Some B\<rparr> \<in>
         set (py_slice
               (sort_by_score_desc (concat (map (document_results h (collection s) q) pdfs)))
               0 4) \<longrightarrow>
       precedes (a0\<lparr>source_pdf := Some A\<rparr>) (b0\<lparr>source_pdf := Some B\<rparr>)
         (py_slice
           (sort_by_score_desc (concat (map (document_results h (collection s) q) pdfs)))
           0 4)))"
proof (intro conjI impI)
  assume run: "handle_global_search h fuel pdfs q s =
                 Some (Inr (Found all_results best_results, s'))"
  then obtain collected where
    c: "collect_results h fuel q pdfs [] s = Some (Inr (collected, s'))" and
    all: "all_results = sort_by_score_desc collected" and
    best: "best_results = py_slice all_results 0 4"
    by (auto simp: handle_global_search_def split: option.splits sum.splits if_splits)
  show "by_score_desc all_results" unfolding all by (rule by_score_desc_sort)
  show "best_results = py_slice all_results 0 4" by (rule best)
  show "length best_results \<le> 4"
    using py_slice_prefix_length [of 4 all_results] by (simp add: best)
  have "length (filter (\<lambda>r. source_pdf r = Some d) all_results) =
          length (filter (\<lambda>r. source_pdf r = Some d) collected)"
    unfolding all sort_by_score_desc_def by (simp add: filter_sort)
  with collect_results_per_document [OF c, of d]
  show "length (filter (\<lambda>r. source_pdf r = Some d) all_results) \<le> 2 * count_list pdfs d"
    by simp
next
  assume run: "handle_global_search h fuel pdfs q s =
                 Some (Inr (Found all_results best_results, s'))"
    and ab: "a \<in> set all_results \<and> b \<in> set best_results \<and>
             similarity_score b < similarity_score a"
  then obtain collected where
    all: "all_results = sort_by_score_desc collected" and
    best: "best_results = py_slice (sort_by_score_desc collected) 0 4"
    by (auto simp: handle_global_search_def split: option.splits sum.splits if_splits)
  from ab have "a \<in> set collected" by (simp add: all set_sort_by_score_desc)
  moreover from ab have "b \<in> set (py_slice (sort_by_score_desc collected) 0 4)"
    by (simp add: best)
  moreover from ab have "similarity_score b < similarity_score a" by simp
  ultimately show "precedes a b best_results"
    unfolding best by (rule sorted_desc_precedes_slice)
next
  define collected where
    "collected = concat (map (document_results h (collection s) q) pdfs)"
  assume hyp: "list_all (indexed s) pdfs \<and> list_all (\<lambda>ok. ok) (get_script s) \<and>
    A \<in> set pdfs \<and> B \<in> set pdfs \<and>
    search_in_document (rounding h) (database h (collection s)) q A 2 (15 / 100) = a0 # ra \<and>
    search_in_document (rounding h) (database h (collection s)) q B 2 (15 / 100) = b0 # rb \<and>
    similarity_score b0 < similarity_score a0"
  then have i: "list_all (indexed s) pdfs" and g: "list_all (\<lambda>ok. ok) (get_script s)"
    and A: "A \<in> set pdfs" and B: "B \<in> set pdfs"
    and sa: "search_in_document (rounding h) (database h (collection s)) q A 2 (15 / 100) =
               a0 # ra"
    and sb: "search_in_document (rounding h) (database h (collection s)) q B 2 (15 / 100) =
               b0 # rb"
    and lt: "similarity_score b0 < similarity_score a0"
    by simp_all
  from collect_results_indexed [OF i g, of h fuel q "[]"] obtain s2 where
    c: "collect_results h fuel q pdfs [] s = Some (Inr (collected, s2))" and
    s2: "collection s2 = collection s"
    by (auto simp: collected_def)
  from document_results_head [OF sa] A
  have a: "a0\<lparr>source_pdf := Some A\<rparr> \<in> set collected" by (auto simp: collected_def)
  from document_results_head [OF sb] B
  have b: "b0\<lparr>source_pdf := Some B\<rparr> \<in> set collected" by (auto simp: collected_def)
  from a have ne: "collected \<noteq> []" by auto
  have lt': "similarity_score (b0\<lparr>source_pdf := Some B\<rparr>) <
             similarity_score (a0\<lparr>source_pdf := Some A\<rparr>)"
    using lt by simp
  from c ne s2
  show "\<exists>s2. handle_global_search h fuel pdfs q s =
              Some (Inr (Found
                (sort_by_score_desc (concat (map (document_results h (collection s) q) pdfs)))
                (py_slice
                  (sort_by_score_desc (concat (map (document_results h (collection s) q) pdfs)))
                  0 4), s2)) \<and>
            collection s2 = collection s"
    by (simp add: handle_global_search_def collected_def)
  have "b0\<lparr>source_pdf := Some B\<rparr> \<in>
          set (py_slice (sort_by_score_desc collected) 0 (int (length collected)))"
    using b by (simp add: py_slice_whole sort_by_score_desc_length set_sort_by_score_desc)
  from sorted_desc_precedes_slice [OF a this lt']
  show "precedes (a0\<lparr>source_pdf := Some A\<rparr>) (b0\<lparr>source_pdf := Some B\<rparr>)
        (sort_by_score_desc (concat (map (document_results h (collection s) q) pdfs)))"
    by (simp add: py_slice_whole sort_by_score_desc_length collected_def)
  assume "b0\<lparr>source_pdf := Some B\<rparr> \<in>
         set (py_slice
               (sort_by_score_desc (concat (map (document_results h (collection s) q) pdfs)))
               0 4)"
  then have "b0\<lparr>source_pdf := Some B\<rparr> \<in> set (py_slice (sort_by_score_desc collected) 0 4)"
    by (simp add: collected_def)
  from sorted_desc_precedes_slice [OF a this lt']
  show "precedes (a0\<lparr>source_pdf := Some A\<rparr>) (b0\<lparr>source_pdf := Some B\<rparr>)
         (py_slice
           (sort_by_score_desc (concat (map (document_results h (collection s) q) pdfs)))
           0 4)"
    by (simp add: collected_def)
qed

lemma two_documents_in_document:
  "search_in_document id two_documents ''q'' ''A.pdf'' 2 (15 / 100) =
     [hit ''a1'' 1 None, hit ''a2'' (1 / 4) None]"
  "search_in_document id two_documents ''q'' ''B.pdf'' 2 (15 / 100) = [hit ''b2'' (1 / 2) None]"
  by (simp_all add: search_in_document_def rank_response_def two_documents_def score_def
      get_default_def sort_by_score_desc_def py_slice_def slice_bound_def hit_def)

lemma two_documents_results:
  "document_results sample_host rows ''q'' ''A.pdf'' =
     [hit ''a1'' 1 (Some ''A.pdf''), hit ''a2'' (1 / 4) (Some ''A.pdf'')]"
  "document_results sample_host rows ''q'' ''B.pdf'' = [hit ''b2'' (1 / 2) (Some ''B.pdf'')]"
  using two_documents_in_document
  by (simp_all add: document_results_def sample_host_def py_slice_def slice_bound_def hit_def)

lemma indexed_store_indexed:
  "list_all (indexed indexed_store) [''B.pdf'', ''A.pdf'']"
  "list_all (\<lambda>ok. ok) (get_script indexed_store)"
  by (simp_all add: indexed_def indexed_store_def fresh_store_def)

theorem global_search_merge_witness:
  "list_all (indexed indexed_store) [''B.pdf'', ''A.pdf''] \<and>
   list_all (\<lambda>ok. ok) (get_script indexed_store) \<and>
   search_in_document (rounding sample_host)
     (database sample_host (collection indexed_store)) ''q'' ''A.pdf'' 2 (15 / 100) =
     [hit ''a1'' 1 None, hit ''a2'' (1 / 4) None] \<and>
   search_in_document (rounding sample_host)
     (database sample_host (collection indexed_store)) ''q'' ''B.pdf'' 2 (15 / 100) =
     [hit ''b2'' (1 / 2) None] \<and>
   similarity_score (hit ''b2'' (1 / 2) None) < similarity_score (hit ''a1'' 1 None) \<and>
   (\<exists>s2. handle_global_search sample_host 1000 [''B.pdf'', ''A.pdf''] ''q'' indexed_store =
      Some (Inr (Found
        [hit ''a1'' 1 (Some ''A.pdf''), hit ''b2'' (1 / 2) (Some ''B.pdf''),
         hit ''a2'' (1 / 4) (Some ''A.pdf'')]
        [hit ''a1'' 1 (Some ''A.pdf''), hit ''b2'' (1 / 2) (Some ''B.pdf''),
         hit ''a2'' (1 / 4) (Some ''A.pdf'')], s2)) \<and>
      collection s2 = collection indexed_store) \<and>
   precedes (hit ''a1'' 1 (Some ''A.pdf'')) (hit ''b2'' (1 / 2) (Some ''B.pdf''))
     [hit ''a1'' 1 (Some ''A.pdf''), hit ''b2'' (1 / 2) (Some ''B.pdf''),
      hit ''a2'' (1 / 4) (Some ''A.pdf'')]"
proof -
  let ?pdfs = "[''B.pdf'', ''A.pdf'']"
  let ?a = "hit ''a1'' 1 None" and ?b = "hit ''b2'' (1 / 2) None"
  let ?best = "[hit ''a1'' 1 (Some ''A.pdf''), hit ''b2'' (1 / 2) (Some ''B.pdf''),
                hit ''a2'' (1 / 4) (Some ''A.pdf'')]"
  have sa: "search_in_document (rounding sample_host)
      (database sample_host (collection indexed_store)) ''q'' ''A.pdf'' 2 (15 / 100) =
      ?a # [hit ''a2'' (1 / 4) None]"
    and sb: "search_in_document (rounding sample_host)
      (database sample_host (collection indexed_store)) ''q'' ''B.pdf'' 2 (15 / 100) = ?b # []"
    using two_documents_in_document by (simp_all add: sample_host_def)
  have lt: "similarity_score ?b < similarity_score ?a" by (simp add: hit_def)
  have srt: "sort_by_score_desc
      (concat (map (document_results sample_host (collection indexed_store) ''q'') ?pdfs)) =
      ?best"
    by (simp add: two_documents_results sort_by_score_desc_def hit_def)
  have tag: "?a\<lparr>source_pdf := Some ''A.pdf''\<rparr> = hit ''a1'' 1 (Some ''A.pdf'')"
    "?b\<lparr>source_pdf := Some ''B.pdf''\<rparr> = hit ''b2'' (1 / 2) (Some ''B.pdf'')"
    by (simp_all add: hit_def)
  have whole: "py_slice ?best 0 4 = ?best" by (simp add: py_slice_def slice_bound_def)
  from global_search_merge [where h = sample_host and fuel = 1000 and pdfs = ?pdfs
      and q = "''q''" and s = indexed_store and A = "''A.pdf''" and B = "''B.pdf''"
      and ?a0.0 = ?a and ra = "[hit ''a2'' (1 / 4) None]" and ?b0.0 = ?b and rb = "[]"]
    indexed_store_indexed sa sb lt
  have "(\<exists>s2. handle_global_search sample_host 1000 ?pdfs ''q'' indexed_store =
            Some (Inr (Found ?best ?best, s2)) \<and>
          collection s2 = collection indexed_store) \<and>
        precedes (hit ''a1'' 1 (Some ''A.pdf'')) (hit ''b2'' (1 / 2) (Some ''B.pdf'')) ?best"
    unfolding srt tag whole by simp
  with indexed_store_indexed sa sb lt show ?thesis by simp
qed

subsection \<open>The score\<close>

lemma round52_mono: "mono round52"
proof (rule monoI)
  fix x y :: real
  assume "x \<le> y"
  then have "x * 2 ^ 52 \<le> y * 2 ^ 52" by simp
  then have "round (x * 2 ^ 52) \<le> round (y * 2 ^ 52)" by (rule round_mono)
  then have "(of_int (round (x * 2 ^ 52)) :: real) \<le> of_int (round (y * 2 ^ 52))" by simp
  then show "round52 x \<le> round52 y" by (simp add: round52_def divide_right_mono)
qed

lemma round52_one: "round52 1 = 1"
proof -
  have "round ((2::real) ^ 52) = 2 ^ 52" by (rule round_unique) simp_all
  then show ?thesis by (simp add: round52_def)
qed

text \<open>
  The distances \<open>0\<close> and \<open>1 / 2 ^ 60\<close> have the same score: the sum \<open>1 + 1 / 2 ^ 60\<close> rounds
  to \<open>1\<close>. So the score is not strictly decreasing on floats.
\<close>

lemma score_tie: "score round52 (1 / 2 ^ 60) = score round52 0"
proof -
  have "round ((1 + 1 / 2 ^ 60) * (2::real) ^ 52) = 2 ^ 52" by (rule round_unique) simp_all
  then have "round52 (1 + 1 / 2 ^ 60) = 1" by (simp add: round52_def)
  then show ?thesis by (simp add: score_def round52_one)
qed

text \<open>
  C9. For a rounding that is monotone and leaves \<open>1\<close> as it is (as rounding to the
  nearest float is), the score \<open>1.0 / (1.0 + distance)\<close> does not increase when the
  distance grows, over the non-negative distances, and the score of distance \<open>0\<close> is \<open>1\<close>.
\<close>

theorem score_decreasing:
  assumes "mono fl" and "fl 1 = 1" and "0 \<le> d1" and "d1 \<le> d2"
  shows "score fl d2 \<le> score fl d1 \<and> score fl 0 = 1"
proof -
  from assms(3) have "fl 1 \<le> fl (1 + d1)" by (intro monoD [OF assms(1)]) simp
  then have pos: "0 < fl (1 + d1)" by (simp add: assms(2))
  from assms(4) have "fl (1 + d1) \<le> fl (1 + d2)" by (intro monoD [OF assms(1)]) simp
  with pos have "1 / fl (1 + d2) \<le> 1 / fl (1 + d1)" by (simp add: frac_le)
  then have "fl (1 / fl (1 + d2)) \<le> fl (1 / fl (1 + d1))" by (rule monoD [OF assms(1)])
  then show ?thesis by (simp add: score_def assms(2))
qed

theorem score_decreasing_witness:
  "mono round52 \<and> round52 1 = 1 \<and> (0::real) \<le> 0 \<and> (0::real) \<le> 1 / 2 ^ 60 \<and>
   score round52 (1 / 2 ^ 60) \<le> score round52 0 \<and> score round52 0 = 1 \<and>
   mono (id :: real \<Rightarrow> real) \<and> id (1::real) = 1 \<and> (0::real) \<le> 1 \<and> (1::real) \<le> 3 \<and>
   score id 3 \<le> score id 1 \<and> score id 1 = 1 / 2 \<and> score id 3 = 1 / 4"
  using score_decreasing [OF round52_mono round52_one, of 0 "1 / 2 ^ 60"]
    score_decreasing [of id 1 3] round52_mono round52_one
  by (simp add: score_def mono_def)
section \<open>Properties of the extractor\<close>

subsection \<open>\<open>_process_page_async\<close>\<close>

text \<open>
  C7. When the native text of a page and its OCR text both fail the sufficiency check,
  the page's result is the native text if that is non-empty, and the OCR text
  otherwise.
\<close>

theorem process_page_both_insufficient:
  assumes "normal_text p = Inr native" "ocr_text p = Inr ocr"
    and "\<not> is_text_sufficient native" "\<not> is_text_sufficient ocr"
  shows "process_page_async p = Inr (Some (if native \<noteq> [] then native else ocr))"
  using assms by (simp add: process_page_async_def)

theorem process_page_both_insufficient_witness:
  "\<not> is_text_sufficient ''Seite 3'' \<and> \<not> is_text_sufficient ''5eite'' \<and> \<not> is_text_sufficient [] \<and>
   process_page_async \<lparr>normal_text = Inr ''Seite 3'', ocr_text = Inr ''5eite''\<rparr> =
     Inr (Some ''Seite 3'') \<and>
   process_page_async \<lparr>normal_text = Inr [], ocr_text = Inr ''5eite''\<rparr> = Inr (Some ''5eite'') \<and>
   process_page_async \<lparr>normal_text = Inr [], ocr_text = Inr []\<rparr> = Inr (Some [])"
proof -
  have a: "\<not> is_text_sufficient ''Seite 3''" "\<not> is_text_sufficient ''5eite''"
    "\<not> is_text_sufficient []"
    by (simp_all add: is_text_sufficient_def min_text_length_def is_space_def whitespace_chars_def)
  show ?thesis
    using a
      process_page_both_insufficient
        [of "\<lparr>normal_text = Inr ''Seite 3'', ocr_text = Inr ''5eite''\<rparr>" "''Seite 3''" "''5eite''"]
      process_page_both_insufficient
        [of "\<lparr>normal_text = Inr [], ocr_text = Inr ''5eite''\<rparr>" "[]" "''5eite''"]
      process_page_both_insufficient
        [of "\<lparr>normal_text = Inr [], ocr_text = Inr []\<rparr>" "[]" "[]"]
    by simp
qed

subsection \<open>\<open>extract_paragraphs_from_pdf\<close>\<close>













end
